theory Spec2Isabelle
  imports Main "HOL-Library.Word"
begin

section \<open>Game of Life on a sparse set of live cells (Source.cpp)\<close>

text \<open>
  The C++ program stores the live cells in a \<open>std::set<Coordinate>\<close>, ordered by
  \<open>Coordinate::operator<\<close>, and computes every generation with the standard
  algorithms \<open>std::set_difference\<close> and \<open>std::set_intersection\<close>.

  \<^item> \<open>int\<close> is a 32-bit two's-complement value: a \<open>32 word\<close>, compared through
    \<open>sint\<close>. Signed overflow in \<open>xy.X + 1\<close> and \<open>xy.X - 1\<close> has no meaning in the
    C++ standard; the model gives it the wrap-around of the target machine.
  \<^item> \<open>unsigned\<close> is a \<open>32 word\<close> with its usual order; \<open>gen += 1\<close> wraps.
  \<^item> a \<open>std::set<Coordinate>\<close> is the list of its elements in iteration order,
    strictly increasing with respect to \<open>operator<\<close>.
\<close>

subsection \<open>Coordinate\<close>

record Coordinate =
  X :: "32 word"
  Y :: "32 word"

text \<open>\<open>Coordinate::operator==\<close>, lines 51-55.\<close>

definition coord_eq :: "Coordinate \<Rightarrow> Coordinate \<Rightarrow> bool" where
  "coord_eq a xy = (if X a = X xy \<and> Y a = Y xy then True else False)"

text \<open>\<open>Coordinate::operator<\<close>, lines 61-66.\<close>

definition coord_less :: "Coordinate \<Rightarrow> Coordinate \<Rightarrow> bool" where
  "coord_less a xy =
     (if sint (X a) < sint (X xy) then True
      else if X a = X xy \<and> sint (Y a) < sint (Y xy) then True
      else False)"

subsection \<open>The container \<open>std::set<Coordinate>\<close> and the standard algorithms\<close>

text \<open>
  A \<open>std::set<Coordinate>\<close> is modelled by the list its iterators traverse. The
  container keeps it strictly increasing with respect to \<open>operator<\<close>.
\<close>

type_synonym coord_set = "Coordinate list"

definition std_set :: "coord_set \<Rightarrow> bool" where
  "std_set xs = sorted_wrt coord_less xs"

text \<open>
  \<open>std::set::insert(value)\<close>: the value is placed at its position in the order; when
  an equivalent element (neither less than the other) is already present the
  set is left as it is.
\<close>

fun set_insert :: "Coordinate \<Rightarrow> coord_set \<Rightarrow> coord_set" where
  "set_insert v [] = [v]"
| "set_insert v (y # ys) =
     (if coord_less v y then v # y # ys
      else if coord_less y v then y # set_insert v ys
      else y # ys)"

text \<open>
  \<open>std::set::insert(first, last)\<close>, the initializer-list constructor and an
  \<open>std::inserter\<close> output iterator all insert the elements of a range one by one.
\<close>

fun insert_range :: "Coordinate list \<Rightarrow> coord_set \<Rightarrow> coord_set" where
  "insert_range [] s = s"
| "insert_range (v # vs) s = insert_range vs (set_insert v s)"

text \<open>
  \<open>std::set_difference\<close> on two sorted ranges: the elements of the first range
  that have no equivalent in the second, in order.
\<close>

fun set_difference :: "Coordinate list \<Rightarrow> Coordinate list \<Rightarrow> Coordinate list" where
  "set_difference [] ys = []"
| "set_difference (x # xs) [] = x # xs"
| "set_difference (x # xs) (y # ys) =
     (if coord_less x y then x # set_difference xs (y # ys)
      else if coord_less y x then set_difference (x # xs) ys
      else set_difference xs ys)"

text \<open>
  \<open>std::set_intersection\<close> on two sorted ranges: the elements of the first range
  that have an equivalent in the second, in order.
\<close>

fun set_intersection :: "Coordinate list \<Rightarrow> Coordinate list \<Rightarrow> Coordinate list" where
  "set_intersection [] ys = []"
| "set_intersection (x # xs) [] = []"
| "set_intersection (x # xs) (y # ys) =
     (if coord_less x y then set_intersection xs (y # ys)
      else if coord_less y x then set_intersection (x # xs) ys
      else x # set_intersection xs ys)"

subsection \<open>The class \<open>Life\<close>\<close>

record Life =
  LiveCells :: coord_set
  gen :: "32 word"
  LiveCellsNextGen :: coord_set

text \<open>
  The constructor, lines 112-116. Its argument already is a \<open>std::set\<close>; the callers
  build it from a braced list of coordinates. \<open>LiveCellsNextGen\<close> is default
  constructed.
\<close>

definition Life_new :: "coord_set \<Rightarrow> Life" where
  "Life_new LiveCells' = \<lparr>LiveCells = LiveCells', gen = 0, LiveCellsNextGen = []\<rparr>"

text \<open>
  A call such as \<open>Life Game6({ {0,0},{1,0},{-1,0} })\<close> in the scenario functions: the
  braced list becomes a \<open>std::set\<close> by inserting its elements, and the set is
  handed to the constructor.
\<close>

definition Life_of_list :: "Coordinate list \<Rightarrow> Life" where
  "Life_of_list cs = Life_new (insert_range cs [])"

text \<open>\<open>Life::Neighbours\<close>, lines 194-208.\<close>

definition Neighbours :: "Coordinate \<Rightarrow> coord_set" where
  "Neighbours xy =
     (let SW = \<lparr>X = X xy - 1, Y = Y xy - 1\<rparr>;
          W = \<lparr>X = X xy - 1, Y = Y xy\<rparr>;
          NW = \<lparr>X = X xy - 1, Y = Y xy + 1\<rparr>;
          S = \<lparr>X = X xy, Y = Y xy - 1\<rparr>;
          N = \<lparr>X = X xy, Y = Y xy + 1\<rparr>;
          SE = \<lparr>X = X xy + 1, Y = Y xy - 1\<rparr>;
          E = \<lparr>X = X xy + 1, Y = Y xy\<rparr>;
          NE = \<lparr>X = X xy + 1, Y = Y xy + 1\<rparr>
      in insert_range [SW, W, NW, S, N, SE, E, NE] [])"

text \<open>\<open>Life::AllDeadNeighbours\<close>, lines 222-237: the loop over \<open>LiveCells\<close>, then the difference.\<close>

fun dn_loop :: "Coordinate list \<Rightarrow> coord_set \<Rightarrow> coord_set" where
  "dn_loop [] dn = dn"
| "dn_loop (c # cs) dn = dn_loop cs (insert_range (Neighbours c) dn)"

definition AllDeadNeighbours :: "Life \<Rightarrow> coord_set" where
  "AllDeadNeighbours g =
     (let dn = dn_loop (LiveCells g) []
      in insert_range (set_difference dn (LiveCells g)) [])"

text \<open>
  The body shared by the loops of \<open>Birth\<close> and \<open>SurvivalAndDeath\<close>: the set \<open>count\<close>
  of the live neighbours of a cell, lines 259-261 and 285-287.
\<close>

definition live_nbrs :: "coord_set \<Rightarrow> Coordinate \<Rightarrow> coord_set" where
  "live_nbrs live c = insert_range (set_intersection (Neighbours c) live) []"

text \<open>\<open>Life::Birth\<close>, lines 250-267.\<close>

fun Birth_loop :: "Coordinate list \<Rightarrow> coord_set \<Rightarrow> coord_set \<Rightarrow> coord_set" where
  "Birth_loop [] live next = next"
| "Birth_loop (c # cs) live next =
     Birth_loop cs live
       (if length (live_nbrs live c) = 3 then set_insert c next else next)"

definition Birth :: "Life \<Rightarrow> Life" where
  "Birth g =
     (let DeadCells = AllDeadNeighbours g
      in g\<lparr>LiveCellsNextGen := Birth_loop DeadCells (LiveCells g) (LiveCellsNextGen g)\<rparr>)"

text \<open>\<open>Life::SurvivalAndDeath\<close>, lines 278-296.\<close>

fun Survival_loop :: "Coordinate list \<Rightarrow> coord_set \<Rightarrow> coord_set \<Rightarrow> coord_set" where
  "Survival_loop [] live next = next"
| "Survival_loop (c # cs) live next =
     Survival_loop cs live
       (if length (live_nbrs live c) = 2 \<or> length (live_nbrs live c) = 3
        then set_insert c next else next)"

definition SurvivalAndDeath :: "Life \<Rightarrow> Life" where
  "SurvivalAndDeath g =
     g\<lparr>LiveCellsNextGen := Survival_loop (LiveCells g) (LiveCells g) (LiveCellsNextGen g)\<rparr>"

text \<open>\<open>Life::AdvanceOne\<close>, lines 131-140.\<close>

definition AdvanceOne :: "Life \<Rightarrow> Life" where
  "AdvanceOne g =
     (let g1 = Birth g;
          g2 = SurvivalAndDeath g1;
          g3 = g2\<lparr>LiveCells := LiveCellsNextGen g2\<rparr>;
          g4 = g3\<lparr>LiveCellsNextGen := []\<rparr>
      in g4\<lparr>gen := gen g4 + 1\<rparr>)"

text \<open>\<open>Life::Gen\<close> and \<open>Life::cardLiveCells\<close>, lines 156-168; \<open>size()\<close> is converted to \<open>unsigned\<close>.\<close>

definition Gen :: "Life \<Rightarrow> 32 word" where
  "Gen g = gen g"

definition cardLiveCells :: "Life \<Rightarrow> 32 word" where
  "cardLiveCells g = of_nat (length (LiveCells g))"

text \<open>
  \<open>Life::AdvanceTo\<close>, lines 146-149. The loop ends: while \<open>gen < n\<close> holds the
  increment cannot wrap, so the distance from \<open>gen\<close> to \<open>n\<close> shrinks.
\<close>

function AdvanceTo :: "32 word \<Rightarrow> Life \<Rightarrow> Life" where
  "AdvanceTo n g = (if gen g < n then AdvanceTo n (AdvanceOne g) else g)"
  by pat_completeness auto
termination
proof (relation "measure (\<lambda>(n, g). unat n - unat (gen g))")
  show "wf (measure (\<lambda>(n, g). unat n - unat (gen g)))" by simp
next
  fix n :: "32 word" and g :: Life
  assume less: "gen g < n"
  have step: "gen (AdvanceOne g) = gen g + 1"
    by (simp add: AdvanceOne_def Let_def SurvivalAndDeath_def Birth_def)
  from less have "unat n - unat (gen g + 1) < unat n - unat (gen g)"
    by unat_arith
  then show "((n, AdvanceOne g), (n, g)) \<in> measure (\<lambda>(n, g). unat n - unat (gen g))"
    by (simp add: step)
qed

declare AdvanceTo.simps [simp del]

subsection \<open>Engine states\<close>

text \<open>
  The states an engine can be in: the constructor applied to a well-formed set,
  followed by any sequence of the public operations that change the state.
\<close>

inductive reachable :: "Life \<Rightarrow> bool" where
  new: "std_set cells \<Longrightarrow> reachable (Life_new cells)"
| one: "reachable g \<Longrightarrow> reachable (AdvanceOne g)"
| to: "reachable g \<Longrightarrow> reachable (AdvanceTo n g)"

definition Life_inv :: "Life \<Rightarrow> bool" where
  "Life_inv g = (std_set (LiveCells g) \<and> LiveCellsNextGen g = [])"

subsection \<open>The rules of the game, as the specification words them\<close>

text \<open>
  The eight offsets \<open>(dX, dY)\<close> with components in \<open>{-1, 0, 1}\<close>, without \<open>(0, 0)\<close>,
  and a coordinate moved by an offset in 32-bit arithmetic.
\<close>

definition offsets :: "(32 word \<times> 32 word) list" where
  "offsets = [(- 1, - 1), (- 1, 0), (- 1, 1), (0, - 1), (0, 1), (1, - 1), (1, 0), (1, 1)]"

definition shift :: "Coordinate \<Rightarrow> 32 word \<times> 32 word \<Rightarrow> Coordinate" where
  "shift c d = \<lparr>X = X c + fst d, Y = Y c + snd d\<rparr>"

text \<open>
  The neighbours of a cell in the words of the specification: the cell moved by each
  of the eight offsets. The definition does not refer to \<open>Life::Neighbours\<close>.
\<close>

definition spec_neighbours :: "Coordinate \<Rightarrow> Coordinate set" where
  "spec_neighbours c = shift c ` set offsets"

text \<open>The number of the neighbours of a cell that are alive in a set of live cells.\<close>

definition live_count :: "Coordinate set \<Rightarrow> Coordinate \<Rightarrow> nat" where
  "live_count live c = card (spec_neighbours c \<inter> live)"

text \<open>Candidates: the neighbours of live cells that are not alive themselves.\<close>

definition spec_candidates :: "Coordinate set \<Rightarrow> Coordinate set" where
  "spec_candidates live = {c. (\<exists>l\<in>live. c \<in> spec_neighbours l) \<and> c \<notin> live}"

text \<open>Birth: a candidate with exactly 3 live neighbours.\<close>

definition spec_birth :: "Coordinate set \<Rightarrow> Coordinate set" where
  "spec_birth live = {c \<in> spec_candidates live. live_count live c = 3}"

text \<open>Survival: a live cell with exactly 2 or exactly 3 live neighbours.\<close>

definition spec_survival :: "Coordinate set \<Rightarrow> Coordinate set" where
  "spec_survival live = {c \<in> live. live_count live c = 2 \<or> live_count live c = 3}"

text \<open>The Chebyshev distance of two cells, on the integers the coordinates denote.\<close>

definition chebyshev :: "Coordinate \<Rightarrow> Coordinate \<Rightarrow> int" where
  "chebyshev a b = max \<bar>sint (X a) - sint (X b)\<bar> \<bar>sint (Y a) - sint (Y b)\<bar>"

text \<open>A cell none of whose components is \<open>INT_MIN\<close> or \<open>INT_MAX\<close>.\<close>

definition interior :: "Coordinate \<Rightarrow> bool" where
  "interior c =
     (- 2147483648 < sint (X c) \<and> sint (X c) < 2147483647 \<and>
      - 2147483648 < sint (Y c) \<and> sint (Y c) < 2147483647)"

subsection \<open>Order properties of \<open>operator<\<close>\<close>

lemma coord_less_irrefl: "\<not> coord_less a a"
  by (simp add: coord_less_def)

lemma coord_less_trans: "coord_less a b \<Longrightarrow> coord_less b c \<Longrightarrow> coord_less a c"
  by (auto simp: coord_less_def split: if_splits)

lemma coord_less_asym: "coord_less a b \<Longrightarrow> \<not> coord_less b a"
  by (auto simp: coord_less_def split: if_splits)

lemma coord_equiv_eq:
  fixes a b :: Coordinate
  assumes "\<not> coord_less a b" and "\<not> coord_less b a"
  shows "a = b"
proof -
  from assms have x: "sint (X a) = sint (X b)"
    by (auto simp: coord_less_def split: if_splits)
  then have xe: "X a = X b"
    by (simp add: signed_word_eqI)
  with assms have "sint (Y a) = sint (Y b)"
    by (auto simp: coord_less_def split: if_splits)
  then have "Y a = Y b"
    by (simp add: signed_word_eqI)
  with xe show ?thesis by simp
qed

subsection \<open>The container operations compute the set operations\<close>

lemma set_set_insert: "set (set_insert v xs) = insert v (set xs)"
proof (induction xs)
  case Nil
  show ?case by simp
next
  case (Cons y ys)
  show ?case
  proof (cases "coord_less v y")
    case True
    then show ?thesis by simp
  next
    case nless: False
    show ?thesis
    proof (cases "coord_less y v")
      case True
      with nless Cons.IH show ?thesis by auto
    next
      case False
      with nless have "v = y" by (rule coord_equiv_eq)
      with nless show ?thesis by (simp add: coord_less_irrefl)
    qed
  qed
qed

lemma std_set_Nil: "std_set []"
  by (simp add: std_set_def)

lemma std_set_Cons: "std_set (x # xs) \<longleftrightarrow> (\<forall>y\<in>set xs. coord_less x y) \<and> std_set xs"
  by (simp add: std_set_def)

lemma std_set_set_insert: "std_set xs \<Longrightarrow> std_set (set_insert v xs)"
proof (induction xs)
  case Nil
  show ?case by (simp add: std_set_Cons std_set_Nil)
next
  case (Cons y ys)
  from Cons.prems have ys: "std_set ys" and y: "\<forall>z\<in>set ys. coord_less y z"
    by (simp_all add: std_set_Cons)
  show ?case
  proof (cases "coord_less v y")
    case True
    with y have "\<forall>z\<in>set (y # ys). coord_less v z"
      by (auto intro: coord_less_trans)
    with True Cons.prems show ?thesis by (simp add: std_set_Cons)
  next
    case nless: False
    show ?thesis
    proof (cases "coord_less y v")
      case True
      with y have "\<forall>z\<in>set (set_insert v ys). coord_less y z"
        by (simp add: set_set_insert)
      with nless True Cons.IH [OF ys] show ?thesis by (simp add: std_set_Cons)
    next
      case False
      with nless Cons.prems show ?thesis by simp
    qed
  qed
qed

lemma set_insert_range: "set (insert_range vs s) = set vs \<union> set s"
  by (induction vs arbitrary: s) (auto simp: set_set_insert)

lemma std_set_insert_range: "std_set s \<Longrightarrow> std_set (insert_range vs s)"
  by (induction vs arbitrary: s) (auto simp: std_set_set_insert)

lemma std_set_distinct: "std_set xs \<Longrightarrow> distinct xs"
  by (induction xs) (auto simp: std_set_Cons coord_less_irrefl)

lemma std_set_length: "std_set xs \<Longrightarrow> length xs = card (set xs)"
  by (simp add: std_set_distinct distinct_card)

lemma set_set_difference:
  "std_set xs \<Longrightarrow> std_set ys \<Longrightarrow> set (set_difference xs ys) = set xs - set ys"
proof (induction xs ys rule: set_difference.induct)
  case (1 ys)
  show ?case by simp
next
  case (2 x xs)
  show ?case by simp
next
  case (3 x xs y ys)
  from "3.prems" have xs: "std_set xs" and ys: "std_set ys"
    and x: "\<forall>z\<in>set xs. coord_less x z" and y: "\<forall>z\<in>set ys. coord_less y z"
    by (simp_all add: std_set_Cons)
  show ?case
  proof (cases "coord_less x y")
    case True
    then have "x \<noteq> y" by (auto simp: coord_less_irrefl)
    moreover from True y have "x \<notin> set ys"
      by (auto dest: coord_less_trans simp: coord_less_irrefl)
    moreover from True "3.IH"(1) xs "3.prems"(2)
    have "set (set_difference xs (y # ys)) = set xs - set (y # ys)" by simp
    ultimately show ?thesis using True by auto
  next
    case nless: False
    show ?thesis
    proof (cases "coord_less y x")
      case True
      from True x have "y \<notin> set (x # xs)"
        by (auto dest: coord_less_trans simp: coord_less_irrefl)
      moreover from nless True "3.IH"(2) "3.prems"(1) ys
      have "set (set_difference (x # xs) ys) = set (x # xs) - set ys" by simp
      ultimately show ?thesis using nless True by auto
    next
      case False
      with nless have eq: "x = y" by (rule coord_equiv_eq)
      from x have "x \<notin> set xs" by (auto simp: coord_less_irrefl)
      moreover from nless False "3.IH"(3) xs ys
      have "set (set_difference xs ys) = set xs - set ys" by simp
      ultimately show ?thesis using nless False eq by auto
    qed
  qed
qed

lemma set_set_intersection:
  "std_set xs \<Longrightarrow> std_set ys \<Longrightarrow> set (set_intersection xs ys) = set xs \<inter> set ys"
proof (induction xs ys rule: set_intersection.induct)
  case (1 ys)
  show ?case by simp
next
  case (2 x xs)
  show ?case by simp
next
  case (3 x xs y ys)
  from "3.prems" have xs: "std_set xs" and ys: "std_set ys"
    and x: "\<forall>z\<in>set xs. coord_less x z" and y: "\<forall>z\<in>set ys. coord_less y z"
    by (simp_all add: std_set_Cons)
  show ?case
  proof (cases "coord_less x y")
    case True
    then have "x \<noteq> y" by (auto simp: coord_less_irrefl)
    moreover from True y have "x \<notin> set ys"
      by (auto dest: coord_less_trans simp: coord_less_irrefl)
    moreover from True "3.IH"(1) xs "3.prems"(2)
    have "set (set_intersection xs (y # ys)) = set xs \<inter> set (y # ys)" by simp
    ultimately show ?thesis using True by auto
  next
    case nless: False
    show ?thesis
    proof (cases "coord_less y x")
      case True
      from True x have "y \<notin> set (x # xs)"
        by (auto dest: coord_less_trans simp: coord_less_irrefl)
      moreover from nless True "3.IH"(2) "3.prems"(1) ys
      have "set (set_intersection (x # xs) ys) = set (x # xs) \<inter> set ys" by simp
      ultimately show ?thesis using nless True by auto
    next
      case False
      with nless have eq: "x = y" by (rule coord_equiv_eq)
      from nless False "3.IH"(3) xs ys
      have "set (set_intersection xs ys) = set xs \<inter> set ys" by simp
      then show ?thesis using nless False eq by auto
    qed
  qed
qed

subsection \<open>Neighbours\<close>

lemma set_Neighbours:
  "set (Neighbours c) =
     {\<lparr>X = X c - 1, Y = Y c - 1\<rparr>, \<lparr>X = X c - 1, Y = Y c\<rparr>, \<lparr>X = X c - 1, Y = Y c + 1\<rparr>,
      \<lparr>X = X c, Y = Y c - 1\<rparr>, \<lparr>X = X c, Y = Y c + 1\<rparr>,
      \<lparr>X = X c + 1, Y = Y c - 1\<rparr>, \<lparr>X = X c + 1, Y = Y c\<rparr>, \<lparr>X = X c + 1, Y = Y c + 1\<rparr>}"
  unfolding Neighbours_def Let_def set_insert_range by simp

lemma Neighbours_offsets: "set (Neighbours c) = shift c ` set offsets"
  by (auto simp: set_Neighbours shift_def offsets_def)

lemma set_Neighbours_spec: "set (Neighbours c) = spec_neighbours c"
  by (simp add: Neighbours_offsets spec_neighbours_def)

lemma std_set_Neighbours: "std_set (Neighbours c)"
  unfolding Neighbours_def Let_def by (rule std_set_insert_range) (rule std_set_Nil)

lemma word32_step:
  fixes x :: "32 word"
  shows "x + 1 \<noteq> x" and "x - 1 \<noteq> x" and "x + 1 \<noteq> x - 1"
    and "x \<noteq> x + 1" and "x \<noteq> x - 1" and "x - 1 \<noteq> x + 1"
proof -
  have two: "(2 :: 32 word) \<noteq> 0" by simp
  show "x + 1 \<noteq> x" "x - 1 \<noteq> x" "x \<noteq> x + 1" "x \<noteq> x - 1" by simp_all
  show "x + 1 \<noteq> x - 1"
  proof
    assume "x + 1 = x - 1"
    then have "(x + 1) - (x - 1) = 0" by simp
    then have "(2 :: 32 word) = 0" by simp
    with two show False by simp
  qed
  then show "x - 1 \<noteq> x + 1" by (rule not_sym)
qed

lemma card_Neighbours: "card (set (Neighbours c)) = 8"
  by (simp add: set_Neighbours word32_step)

lemma length_Neighbours: "length (Neighbours c) = 8"
  by (simp add: std_set_length [OF std_set_Neighbours] card_Neighbours)

lemma self_notin_Neighbours: "c \<notin> set (Neighbours c)"
proof -
  have "c = \<lparr>X = X c, Y = Y c\<rparr>" by simp
  then show ?thesis
    unfolding set_Neighbours
    by (metis (no_types, lifting) Coordinate.select_convs(1,2) insert_iff empty_iff word32_step(4,5))
qed

lemma Neighbours_sym: "n \<in> set (Neighbours c) \<longleftrightarrow> c \<in> set (Neighbours n)"
proof -
  have "\<And>a b :: Coordinate. a \<in> set (Neighbours b) \<Longrightarrow> b \<in> set (Neighbours a)"
  proof -
    fix a b :: Coordinate
    assume "a \<in> set (Neighbours b)"
    then have "(X a = X b - 1 \<or> X a = X b \<or> X a = X b + 1) \<and>
               (Y a = Y b - 1 \<or> Y a = Y b \<or> Y a = Y b + 1) \<and> a \<noteq> b"
      using self_notin_Neighbours [of b] by (auto simp: set_Neighbours)
    then have "(X b = X a - 1 \<or> X b = X a \<or> X b = X a + 1) \<and>
               (Y b = Y a - 1 \<or> Y b = Y a \<or> Y b = Y a + 1) \<and> b \<noteq> a"
      by auto
    then show "b \<in> set (Neighbours a)"
      unfolding set_Neighbours
      by (cases b) auto
  qed
  then show ?thesis by blast
qed

subsection \<open>The loops of the rule functions\<close>

lemma set_dn_loop: "set (dn_loop cs dn) = (\<Union>c\<in>set cs. set (Neighbours c)) \<union> set dn"
  by (induction cs arbitrary: dn) (auto simp: set_insert_range)

lemma std_set_dn_loop: "std_set dn \<Longrightarrow> std_set (dn_loop cs dn)"
  by (induction cs arbitrary: dn) (auto simp: std_set_insert_range)

lemma set_AllDeadNeighbours:
  assumes "std_set (LiveCells g)"
  shows "set (AllDeadNeighbours g) =
           (\<Union>c\<in>set (LiveCells g). set (Neighbours c)) - set (LiveCells g)"
proof -
  have "std_set (dn_loop (LiveCells g) [])"
    by (rule std_set_dn_loop) (rule std_set_Nil)
  with assms show ?thesis
    by (simp add: AllDeadNeighbours_def Let_def set_insert_range set_set_difference set_dn_loop)
qed

lemma std_set_AllDeadNeighbours: "std_set (AllDeadNeighbours g)"
  unfolding AllDeadNeighbours_def Let_def by (rule std_set_insert_range) (rule std_set_Nil)

lemma set_live_nbrs:
  "std_set live \<Longrightarrow> set (live_nbrs live c) = set (Neighbours c) \<inter> set live"
  by (simp add: live_nbrs_def set_insert_range set_set_intersection std_set_Neighbours)

lemma std_set_live_nbrs: "std_set (live_nbrs live c)"
  unfolding live_nbrs_def by (rule std_set_insert_range) (rule std_set_Nil)

lemma length_live_nbrs:
  "std_set live \<Longrightarrow> length (live_nbrs live c) = live_count (set live) c"
  by (simp add: std_set_length [OF std_set_live_nbrs] set_live_nbrs live_count_def
      set_Neighbours_spec)

lemma set_Birth_loop:
  "set (Birth_loop cs live next) =
     set next \<union> {c \<in> set cs. length (live_nbrs live c) = 3}"
  by (induction cs arbitrary: "next") (auto simp: set_set_insert)

lemma std_set_Birth_loop: "std_set next \<Longrightarrow> std_set (Birth_loop cs live next)"
  by (induction cs arbitrary: "next") (auto simp: std_set_set_insert)

lemma set_Survival_loop:
  "set (Survival_loop cs live next) =
     set next \<union> {c \<in> set cs. length (live_nbrs live c) = 2 \<or> length (live_nbrs live c) = 3}"
  by (induction cs arbitrary: "next") (auto simp: set_set_insert)

lemma std_set_Survival_loop: "std_set next \<Longrightarrow> std_set (Survival_loop cs live next)"
  by (induction cs arbitrary: "next") (auto simp: std_set_set_insert)

subsection \<open>One generation step\<close>

lemma set_candidates:
  "std_set (LiveCells g) \<Longrightarrow> set (AllDeadNeighbours g) = spec_candidates (set (LiveCells g))"
  by (auto simp: set_AllDeadNeighbours spec_candidates_def set_Neighbours_spec)

lemma live_count_adjacent:
  assumes "live_count live c = 3"
  shows "\<exists>l\<in>live. c \<in> spec_neighbours l"
proof -
  from assms have "set (Neighbours c) \<inter> live \<noteq> {}"
    by (auto simp: live_count_def set_Neighbours_spec)
  then obtain l where "l \<in> set (Neighbours c)" and "l \<in> live" by blast
  then show ?thesis
    using Neighbours_sym [of l c] by (auto simp: set_Neighbours_spec)
qed

lemma spec_birth_iff:
  "c \<in> spec_birth live \<longleftrightarrow> c \<notin> live \<and> live_count live c = 3"
  using live_count_adjacent [of live c] by (auto simp: spec_birth_def spec_candidates_def)

lemma LiveCellsNextGen_Birth:
  "LiveCellsNextGen (Birth g) = Birth_loop (AllDeadNeighbours g) (LiveCells g) (LiveCellsNextGen g)"
  by (simp add: Birth_def Let_def)

lemma LiveCells_Birth: "LiveCells (Birth g) = LiveCells g"
  by (simp add: Birth_def Let_def)

lemma set_Birth:
  assumes "Life_inv g"
  shows "set (LiveCellsNextGen (Birth g)) = spec_birth (set (LiveCells g))"
proof -
  from assms have live: "std_set (LiveCells g)" and empty: "LiveCellsNextGen g = []"
    by (simp_all add: Life_inv_def)
  show ?thesis
    by (simp add: LiveCellsNextGen_Birth empty set_Birth_loop length_live_nbrs [OF live]
        set_candidates [OF live] spec_birth_def)
qed

lemma std_set_Birth: "std_set (LiveCellsNextGen g) \<Longrightarrow> std_set (LiveCellsNextGen (Birth g))"
  by (simp add: LiveCellsNextGen_Birth std_set_Birth_loop)

lemma set_SurvivalAndDeath:
  assumes "std_set (LiveCells g)"
  shows "set (LiveCellsNextGen (SurvivalAndDeath g)) =
           set (LiveCellsNextGen g) \<union> spec_survival (set (LiveCells g))"
  by (simp add: SurvivalAndDeath_def set_Survival_loop length_live_nbrs [OF assms]
      spec_survival_def)

lemma std_set_SurvivalAndDeath:
  "std_set (LiveCellsNextGen g) \<Longrightarrow> std_set (LiveCellsNextGen (SurvivalAndDeath g))"
  by (simp add: SurvivalAndDeath_def std_set_Survival_loop)

lemma LiveCells_AdvanceOne:
  "LiveCells (AdvanceOne g) = LiveCellsNextGen (SurvivalAndDeath (Birth g))"
  by (simp add: AdvanceOne_def Let_def)

lemma gen_AdvanceOne: "gen (AdvanceOne g) = gen g + 1"
  by (simp add: AdvanceOne_def Let_def SurvivalAndDeath_def Birth_def)

lemma LiveCellsNextGen_AdvanceOne: "LiveCellsNextGen (AdvanceOne g) = []"
  by (simp add: AdvanceOne_def Let_def)

lemma set_AdvanceOne:
  assumes "Life_inv g"
  shows "set (LiveCells (AdvanceOne g)) =
           spec_birth (set (LiveCells g)) \<union> spec_survival (set (LiveCells g))"
proof -
  from assms have live: "std_set (LiveCells g)"
    by (simp add: Life_inv_def)
  then have "std_set (LiveCells (Birth g))"
    by (simp add: LiveCells_Birth)
  then show ?thesis
    by (simp add: LiveCells_AdvanceOne set_SurvivalAndDeath set_Birth [OF assms] LiveCells_Birth)
qed

lemma Life_inv_AdvanceOne:
  assumes "Life_inv g"
  shows "Life_inv (AdvanceOne g)"
proof -
  from assms have "std_set (LiveCellsNextGen g)"
    by (simp add: Life_inv_def std_set_Nil)
  then have "std_set (LiveCellsNextGen (SurvivalAndDeath (Birth g)))"
    by (intro std_set_SurvivalAndDeath std_set_Birth)
  then show ?thesis
    by (simp add: Life_inv_def LiveCells_AdvanceOne LiveCellsNextGen_AdvanceOne)
qed

lemma AdvanceTo_step: "gen g < n \<Longrightarrow> AdvanceTo n g = AdvanceTo n (AdvanceOne g)"
  by (subst AdvanceTo.simps) simp

lemma AdvanceTo_stop: "\<not> gen g < n \<Longrightarrow> AdvanceTo n g = g"
  by (subst AdvanceTo.simps) simp

lemma Life_inv_AdvanceTo: "Life_inv g \<Longrightarrow> Life_inv (AdvanceTo n g)"
proof (induction n g rule: AdvanceTo.induct)
  case (1 n g)
  show ?case
  proof (cases "gen g < n")
    case True
    from "1.prems" have "Life_inv (AdvanceOne g)"
      by (rule Life_inv_AdvanceOne)
    with True have "Life_inv (AdvanceTo n (AdvanceOne g))"
      by (rule "1.IH")
    with True show ?thesis by (simp add: AdvanceTo_step)
  next
    case False
    with "1.prems" show ?thesis by (simp add: AdvanceTo_stop)
  qed
qed

lemma Life_inv_new: "std_set cells \<Longrightarrow> Life_inv (Life_new cells)"
  by (simp add: Life_inv_def Life_new_def)

lemma reachable_inv: "reachable g \<Longrightarrow> Life_inv g"
  by (induction rule: reachable.induct)
    (simp_all add: Life_inv_new Life_inv_AdvanceOne Life_inv_AdvanceTo)

subsection \<open>The loop of \<open>AdvanceTo\<close> and the counter\<close>

lemma AdvanceTo_funpow: "AdvanceTo n g = (AdvanceOne ^^ (unat n - unat (gen g))) g"
proof (induction n g rule: AdvanceTo.induct)
  case (1 n g)
  show ?case
  proof (cases "gen g < n")
    case True
    then have "unat n - unat (gen g) = Suc (unat n - unat (gen g + 1))"
      by unat_arith
    moreover from True have "AdvanceTo n (AdvanceOne g) =
        (AdvanceOne ^^ (unat n - unat (gen g + 1))) (AdvanceOne g)"
      using "1.IH" by (simp add: gen_AdvanceOne)
    moreover from True have "AdvanceTo n g = AdvanceTo n (AdvanceOne g)"
      by (rule AdvanceTo_step)
    ultimately show ?thesis
      by (simp add: funpow_swap1)
  next
    case False
    then have "unat n - unat (gen g) = 0"
      by unat_arith
    with False show ?thesis
      by (simp add: AdvanceTo_stop)
  qed
qed

lemma gen_AdvanceTo: "gen (AdvanceTo n g) = max (gen g) n"
proof (induction n g rule: AdvanceTo.induct)
  case (1 n g)
  show ?case
  proof (cases "gen g < n")
    case True
    then have le: "gen g + 1 \<le> n" by (rule inc_le)
    from True have "gen (AdvanceTo n g) = gen (AdvanceTo n (AdvanceOne g))"
      by (simp only: AdvanceTo_step)
    also from True have "\<dots> = max (gen (AdvanceOne g)) n"
      by (rule "1.IH")
    also from le have "\<dots> = n"
      by (simp add: gen_AdvanceOne max_def)
    also from True have "\<dots> = max (gen g) n"
      by (auto simp: max_def)
    finally show ?thesis .
  next
    case False
    then have "gen (AdvanceTo n g) = gen g"
      by (simp add: AdvanceTo_stop)
    also from False have "\<dots> = max (gen g) n"
      by (simp add: max_def)
    finally show ?thesis .
  qed
qed

lemma unat_gen_step:
  fixes x :: "32 word"
  shows "unat (x + 1) = (unat x + 1) mod 2 ^ 32"
  by (simp add: unat_word_ariths)

lemma unat_gen_step_below:
  fixes x :: "32 word"
  assumes "x \<noteq> 4294967295"
  shows "unat (x + 1) = unat x + 1"
proof -
  have "1 + x \<noteq> 0"
  proof
    assume "1 + x = 0"
    then have "x = - 1" by (simp add: eq_neg_iff_add_eq_0 add.commute)
    then have "x = 4294967295" by simp
    with assms show False by simp
  qed
  then show ?thesis
    using unatSuc [of x] by (simp add: add.commute)
qed

section \<open>The properties\<close>

subsection \<open>The coordinate type\<close>

text \<open>
  Claim C6. \<open>operator==\<close> holds exactly when both components match, which is equality
  of coordinates. \<open>operator<\<close> is the lexicographic order on the signed values, with
  \<open>X\<close> first and \<open>Y\<close> second; of \<open>a < b\<close>, \<open>b < a\<close> and \<open>a == b\<close> exactly one holds, and
  the order is transitive.
\<close>

theorem Coordinate_order:
  "(coord_eq a b \<longleftrightarrow> X a = X b \<and> Y a = Y b) \<and>
   (coord_eq a b \<longleftrightarrow> a = b) \<and>
   (coord_less a b \<longleftrightarrow>
      sint (X a) < sint (X b) \<or> (sint (X a) = sint (X b) \<and> sint (Y a) < sint (Y b))) \<and>
   ((coord_less a b \<and> \<not> coord_less b a \<and> \<not> coord_eq a b) \<or>
    (\<not> coord_less a b \<and> coord_less b a \<and> \<not> coord_eq a b) \<or>
    (\<not> coord_less a b \<and> \<not> coord_less b a \<and> coord_eq a b)) \<and>
   (coord_less a b \<and> coord_less b c \<longrightarrow> coord_less a c)"
proof -
  have comp: "coord_eq a b \<longleftrightarrow> X a = X b \<and> Y a = Y b"
    by (simp add: coord_eq_def)
  have eq: "coord_eq a b \<longleftrightarrow> a = b"
    by (cases a, cases b) (simp add: coord_eq_def)
  have less: "coord_less a b \<longleftrightarrow>
      sint (X a) < sint (X b) \<or> (sint (X a) = sint (X b) \<and> sint (Y a) < sint (Y b))"
    by (auto simp: coord_less_def signed_word_eqI)
  have tri: "(coord_less a b \<and> \<not> coord_less b a \<and> \<not> coord_eq a b) \<or>
    (\<not> coord_less a b \<and> coord_less b a \<and> \<not> coord_eq a b) \<or>
    (\<not> coord_less a b \<and> \<not> coord_less b a \<and> coord_eq a b)"
    unfolding eq
    using coord_equiv_eq [of a b] coord_less_asym [of a b] coord_less_irrefl [of a]
    by blast
  have trans: "coord_less a b \<and> coord_less b c \<longrightarrow> coord_less a c"
    by (blast intro: coord_less_trans)
  show ?thesis
    by (intro conjI comp eq less tri trans)
qed

text \<open>The order at \<open>(-1, 5)\<close>, \<open>(0, -7)\<close> and \<open>(0, 2)\<close>.\<close>

theorem Coordinate_order_witness:
  "coord_less \<lparr>X = - 1, Y = 5\<rparr> \<lparr>X = 0, Y = - 7\<rparr> \<and>
   coord_less \<lparr>X = 0, Y = - 7\<rparr> \<lparr>X = 0, Y = 2\<rparr> \<and>
   coord_less \<lparr>X = - 1, Y = 5\<rparr> \<lparr>X = 0, Y = 2\<rparr> \<and>
   \<not> coord_less \<lparr>X = 0, Y = - 7\<rparr> \<lparr>X = - 1, Y = 5\<rparr> \<and>
   \<not> coord_eq \<lparr>X = - 1, Y = 5\<rparr> \<lparr>X = 0, Y = - 7\<rparr>"
proof -
  have ab: "coord_less \<lparr>X = - 1, Y = 5\<rparr> \<lparr>X = 0, Y = - 7\<rparr>"
    by (simp add: coord_less_def)
  have bc: "coord_less \<lparr>X = 0, Y = - 7\<rparr> \<lparr>X = 0, Y = 2\<rparr>"
    by (simp add: coord_less_def)
  show ?thesis
    using ab bc
      Coordinate_order [of "\<lparr>X = - 1, Y = 5\<rparr>" "\<lparr>X = 0, Y = - 7\<rparr>" "\<lparr>X = 0, Y = 2\<rparr>"]
    by blast
qed

subsection \<open>The blinker\<close>

lemma blinker_new:
  "Life_of_list [\<lparr>X = 0, Y = 0\<rparr>, \<lparr>X = 1, Y = 0\<rparr>, \<lparr>X = - 1, Y = 0\<rparr>] =
     \<lparr>LiveCells = [\<lparr>X = - 1, Y = 0\<rparr>, \<lparr>X = 0, Y = 0\<rparr>, \<lparr>X = 1, Y = 0\<rparr>], gen = 0,
      LiveCellsNextGen = []\<rparr>"
  by (simp add: Life_of_list_def Life_new_def coord_less_def)

lemma blinker_first:
  "AdvanceOne \<lparr>LiveCells = [\<lparr>X = - 1, Y = 0\<rparr>, \<lparr>X = 0, Y = 0\<rparr>, \<lparr>X = 1, Y = 0\<rparr>], gen = 0,
      LiveCellsNextGen = []\<rparr> =
     \<lparr>LiveCells = [\<lparr>X = 0, Y = - 1\<rparr>, \<lparr>X = 0, Y = 0\<rparr>, \<lparr>X = 0, Y = 1\<rparr>], gen = 1,
      LiveCellsNextGen = []\<rparr>"
  by code_simp

lemma blinker_second:
  "AdvanceOne \<lparr>LiveCells = [\<lparr>X = 0, Y = - 1\<rparr>, \<lparr>X = 0, Y = 0\<rparr>, \<lparr>X = 0, Y = 1\<rparr>], gen = 1,
      LiveCellsNextGen = []\<rparr> =
     \<lparr>LiveCells = [\<lparr>X = - 1, Y = 0\<rparr>, \<lparr>X = 0, Y = 0\<rparr>, \<lparr>X = 1, Y = 0\<rparr>], gen = 2,
      LiveCellsNextGen = []\<rparr>"
  by code_simp

text \<open>
  Claim C8. The horizontal blinker \<open>{(0,0), (1,0), (-1,0)}\<close> becomes the vertical one
  \<open>{(0,0), (0,1), (0,-1)}\<close> after one \<open>AdvanceOne\<close> and is back after a second one,
  with the generation counter at 2.
\<close>

theorem blinker_round_trip:
  "set (LiveCells (AdvanceOne (Life_of_list [\<lparr>X = 0, Y = 0\<rparr>, \<lparr>X = 1, Y = 0\<rparr>, \<lparr>X = - 1, Y = 0\<rparr>]))) =
     {\<lparr>X = 0, Y = 0\<rparr>, \<lparr>X = 0, Y = 1\<rparr>, \<lparr>X = 0, Y = - 1\<rparr>} \<and>
   LiveCells (AdvanceOne (Life_of_list [\<lparr>X = 0, Y = 0\<rparr>, \<lparr>X = 1, Y = 0\<rparr>, \<lparr>X = - 1, Y = 0\<rparr>])) =
     [\<lparr>X = 0, Y = - 1\<rparr>, \<lparr>X = 0, Y = 0\<rparr>, \<lparr>X = 0, Y = 1\<rparr>] \<and>
   set (LiveCells (AdvanceOne (AdvanceOne
       (Life_of_list [\<lparr>X = 0, Y = 0\<rparr>, \<lparr>X = 1, Y = 0\<rparr>, \<lparr>X = - 1, Y = 0\<rparr>])))) =
     {\<lparr>X = 0, Y = 0\<rparr>, \<lparr>X = 1, Y = 0\<rparr>, \<lparr>X = - 1, Y = 0\<rparr>} \<and>
   LiveCells (AdvanceOne (AdvanceOne
       (Life_of_list [\<lparr>X = 0, Y = 0\<rparr>, \<lparr>X = 1, Y = 0\<rparr>, \<lparr>X = - 1, Y = 0\<rparr>]))) =
     LiveCells (Life_of_list [\<lparr>X = 0, Y = 0\<rparr>, \<lparr>X = 1, Y = 0\<rparr>, \<lparr>X = - 1, Y = 0\<rparr>]) \<and>
   Gen (AdvanceOne (AdvanceOne
       (Life_of_list [\<lparr>X = 0, Y = 0\<rparr>, \<lparr>X = 1, Y = 0\<rparr>, \<lparr>X = - 1, Y = 0\<rparr>]))) = 2 \<and>
   Gen (AdvanceOne (Life_of_list [\<lparr>X = 0, Y = 0\<rparr>, \<lparr>X = 1, Y = 0\<rparr>, \<lparr>X = - 1, Y = 0\<rparr>])) = 1 \<and>
   Gen (Life_of_list [\<lparr>X = 0, Y = 0\<rparr>, \<lparr>X = 1, Y = 0\<rparr>, \<lparr>X = - 1, Y = 0\<rparr>]) = 0"
  unfolding blinker_new blinker_first blinker_second Gen_def
  by (simp add: insert_commute)

subsection \<open>The eight neighbours\<close>

lemma sint_succ:
  fixes x :: "32 word"
  assumes "sint x < 2147483647"
  shows "sint (x + 1) = sint x + 1"
proof -
  have "- 2147483648 \<le> sint x" using sint_ge [of x] by simp
  with assms show ?thesis
    by (simp add: sint_word_ariths signed_take_bit_int_eq_self)
qed

lemma sint_pred:
  fixes x :: "32 word"
  assumes "- 2147483648 < sint x"
  shows "sint (x - 1) = sint x - 1"
proof -
  have "sint x < 2147483648" using sint_lt [of x] by simp
  with assms show ?thesis
    by (simp add: sint_word_ariths signed_take_bit_int_eq_self)
qed

lemma chebyshev_Neighbours:
  assumes "interior c" and "n \<in> set (Neighbours c)"
  shows "chebyshev c n = 1"
proof -
  from assms(1) have
    xs: "sint (X c + 1) = sint (X c) + 1" and xp: "sint (X c - 1) = sint (X c) - 1" and
    ys: "sint (Y c + 1) = sint (Y c) + 1" and yp: "sint (Y c - 1) = sint (Y c) - 1"
    by (simp_all add: interior_def sint_succ sint_pred)
  from assms(2) show ?thesis
    unfolding set_Neighbours chebyshev_def
    by (auto simp: xs xp ys yp)
qed

text \<open>
  Claim C4, as the code has it. \<open>Neighbours c\<close> holds exactly the eight cells \<open>c\<close> moved by
  an offset \<open>(dX, dY)\<close> with components in \<open>{-1, 0, 1}\<close>, without \<open>(0, 0)\<close>, in 32-bit
  arithmetic: eight distinct cells, none of them \<open>c\<close>. Each is at Chebyshev distance
  exactly 1 from \<open>c\<close> when no component of \<open>c\<close> is \<open>INT_MIN\<close> or \<open>INT_MAX\<close>.
\<close>

theorem Neighbours_eight:
  "set (Neighbours c) = shift c ` set offsets \<and>
   length (Neighbours c) = 8 \<and>
   distinct (Neighbours c) \<and>
   card (set (Neighbours c)) = 8 \<and>
   c \<notin> set (Neighbours c) \<and>
   (interior c \<longrightarrow> (\<forall>n\<in>set (Neighbours c). chebyshev c n = 1))"
  by (simp add: Neighbours_offsets [symmetric] length_Neighbours card_Neighbours
      self_notin_Neighbours std_set_distinct [OF std_set_Neighbours] chebyshev_Neighbours)

text \<open>The eight neighbours of \<open>(5, -3)\<close>; the cell \<open>(6, -4)\<close> is one of them.\<close>

theorem Neighbours_eight_witness:
  "interior \<lparr>X = 5, Y = - 3\<rparr> \<and>
   \<lparr>X = 6, Y = - 4\<rparr> \<in> set (Neighbours \<lparr>X = 5, Y = - 3\<rparr>) \<and>
   chebyshev \<lparr>X = 5, Y = - 3\<rparr> \<lparr>X = 6, Y = - 4\<rparr> = 1 \<and>
   length (Neighbours \<lparr>X = 5, Y = - 3\<rparr>) = 8"
proof -
  have int: "interior \<lparr>X = 5, Y = - 3\<rparr>"
    by (simp add: interior_def)
  have mem: "\<lparr>X = 6, Y = - 4\<rparr> \<in> set (Neighbours \<lparr>X = 5, Y = - 3\<rparr>)"
    by (simp add: set_Neighbours)
  from int mem Neighbours_eight [of "\<lparr>X = 5, Y = - 3\<rparr>"] show ?thesis
    by blast
qed

text \<open>
  Claim C4, as it is worded, fails at the edge of the range of \<open>int\<close>: the eastern
  neighbour of \<open>(INT_MAX, 0)\<close> is \<open>(INT_MIN, 0)\<close>, at distance \<open>2^32 - 1\<close>.
\<close>

theorem Neighbours_distance_counterexample:
  "\<lparr>X = - 2147483648, Y = 0\<rparr> \<in> set (Neighbours \<lparr>X = 2147483647, Y = 0\<rparr>) \<and>
   chebyshev \<lparr>X = 2147483647, Y = 0\<rparr> \<lparr>X = - 2147483648, Y = 0\<rparr> = 4294967295"
  by (simp add: set_Neighbours chebyshev_def)

subsection \<open>The rules of one advance\<close>

lemma reachable_of_list: "reachable (Life_of_list cs)"
  unfolding Life_of_list_def
  by (intro reachable.new std_set_insert_range std_set_Nil)

lemma LiveCells_SurvivalAndDeath: "LiveCells (SurvivalAndDeath g) = LiveCells g"
  by (simp add: SurvivalAndDeath_def)

lemma birth_survival_disjoint: "spec_birth live \<inter> spec_survival live = {}"
  by (auto simp: spec_birth_def spec_candidates_def spec_survival_def)

text \<open>
  Claim C1, as the code has it. In every engine state \<open>AdvanceOne\<close> replaces the live
  set by the union of what \<open>Birth\<close> computes (the dead candidates with exactly 3 live
  neighbours) and what \<open>SurvivalAndDeath\<close> computes (the live cells with 2 or 3 live
  neighbours), where neighbours are the cell moved by the eight offsets. Both count
  against the live set as it was before the call, which neither of them changes. The
  generation counter grows by 1 modulo \<open>2^32\<close>: by exactly 1 from every value other
  than 4294967295.
\<close>

theorem AdvanceOne_next_generation:
  assumes "reachable g"
  shows "set (LiveCells (AdvanceOne g)) =
           spec_birth (set (LiveCells g)) \<union> spec_survival (set (LiveCells g)) \<and>
         set (LiveCellsNextGen (Birth g)) = spec_birth (set (LiveCells g)) \<and>
         set (LiveCellsNextGen (SurvivalAndDeath g)) = spec_survival (set (LiveCells g)) \<and>
         LiveCells (Birth g) = LiveCells g \<and>
         LiveCells (SurvivalAndDeath (Birth g)) = LiveCells g \<and>
         spec_birth (set (LiveCells g)) \<inter> spec_survival (set (LiveCells g)) = {} \<and>
         std_set (LiveCells (AdvanceOne g)) \<and>
         gen (AdvanceOne g) = gen g + 1 \<and>
         unat (gen (AdvanceOne g)) = (unat (gen g) + 1) mod 2 ^ 32 \<and>
         (gen g \<noteq> 4294967295 \<longrightarrow> unat (gen (AdvanceOne g)) = unat (gen g) + 1)"
proof -
  from assms have inv: "Life_inv g" by (rule reachable_inv)
  then have live: "std_set (LiveCells g)" and empty: "LiveCellsNextGen g = []"
    by (simp_all add: Life_inv_def)
  have "std_set (LiveCells (AdvanceOne g))"
    using Life_inv_AdvanceOne [OF inv] by (simp add: Life_inv_def)
  moreover have "set (LiveCellsNextGen (SurvivalAndDeath g)) = spec_survival (set (LiveCells g))"
    by (simp add: set_SurvivalAndDeath [OF live] empty)
  moreover have "unat (gen (AdvanceOne g)) = (unat (gen g) + 1) mod 2 ^ 32"
    unfolding gen_AdvanceOne by (rule unat_gen_step)
  moreover have "gen g \<noteq> 4294967295 \<longrightarrow> unat (gen (AdvanceOne g)) = unat (gen g) + 1"
    unfolding gen_AdvanceOne by (blast intro: unat_gen_step_below)
  ultimately show ?thesis
    by (simp add: set_AdvanceOne [OF inv] set_Birth [OF inv] LiveCells_Birth
        LiveCells_SurvivalAndDeath gen_AdvanceOne birth_survival_disjoint)
qed

text \<open>
  One advance of the horizontal blinker: \<open>(0, 1)\<close> and \<open>(0, -1)\<close> are born, \<open>(0, 0)\<close>
  survives, \<open>(1, 0)\<close> and \<open>(-1, 0)\<close> die, the dead cell \<open>(1, 1)\<close> stays dead, and the
  counter goes from 0 to 1.
\<close>

theorem AdvanceOne_next_generation_witness:
  "reachable (Life_of_list [\<lparr>X = 0, Y = 0\<rparr>, \<lparr>X = 1, Y = 0\<rparr>, \<lparr>X = - 1, Y = 0\<rparr>]) \<and>
   gen (Life_of_list [\<lparr>X = 0, Y = 0\<rparr>, \<lparr>X = 1, Y = 0\<rparr>, \<lparr>X = - 1, Y = 0\<rparr>]) \<noteq> 4294967295 \<and>
   \<lparr>X = 0, Y = 1\<rparr> \<in> set (LiveCells
      (AdvanceOne (Life_of_list [\<lparr>X = 0, Y = 0\<rparr>, \<lparr>X = 1, Y = 0\<rparr>, \<lparr>X = - 1, Y = 0\<rparr>]))) \<and>
   \<lparr>X = 0, Y = - 1\<rparr> \<in> set (LiveCells
      (AdvanceOne (Life_of_list [\<lparr>X = 0, Y = 0\<rparr>, \<lparr>X = 1, Y = 0\<rparr>, \<lparr>X = - 1, Y = 0\<rparr>]))) \<and>
   \<lparr>X = 0, Y = 0\<rparr> \<in> set (LiveCells
      (AdvanceOne (Life_of_list [\<lparr>X = 0, Y = 0\<rparr>, \<lparr>X = 1, Y = 0\<rparr>, \<lparr>X = - 1, Y = 0\<rparr>]))) \<and>
   \<lparr>X = 1, Y = 0\<rparr> \<notin> set (LiveCells
      (AdvanceOne (Life_of_list [\<lparr>X = 0, Y = 0\<rparr>, \<lparr>X = 1, Y = 0\<rparr>, \<lparr>X = - 1, Y = 0\<rparr>]))) \<and>
   \<lparr>X = - 1, Y = 0\<rparr> \<notin> set (LiveCells
      (AdvanceOne (Life_of_list [\<lparr>X = 0, Y = 0\<rparr>, \<lparr>X = 1, Y = 0\<rparr>, \<lparr>X = - 1, Y = 0\<rparr>]))) \<and>
   \<lparr>X = 1, Y = 1\<rparr> \<notin> set (LiveCells
      (AdvanceOne (Life_of_list [\<lparr>X = 0, Y = 0\<rparr>, \<lparr>X = 1, Y = 0\<rparr>, \<lparr>X = - 1, Y = 0\<rparr>]))) \<and>
   unat (gen (AdvanceOne (Life_of_list [\<lparr>X = 0, Y = 0\<rparr>, \<lparr>X = 1, Y = 0\<rparr>, \<lparr>X = - 1, Y = 0\<rparr>]))) = 1"
proof -
  let ?B = "Life_of_list [\<lparr>X = 0, Y = 0\<rparr>, \<lparr>X = 1, Y = 0\<rparr>, \<lparr>X = - 1, Y = 0\<rparr>]"
  let ?L = "{\<lparr>X = - 1, Y = 0\<rparr>, \<lparr>X = 0, Y = 0\<rparr>, \<lparr>X = 1, Y = 0\<rparr>} :: Coordinate set"
  have r: "reachable ?B"
    by (rule reachable_of_list)
  have cells: "set (LiveCells ?B) = ?L" and g0: "gen ?B = 0"
    by (simp_all add: blinker_new)
  have count:
    "live_count ?L \<lparr>X = 0, Y = 1\<rparr> = 3" "live_count ?L \<lparr>X = 0, Y = - 1\<rparr> = 3"
    "live_count ?L \<lparr>X = 0, Y = 0\<rparr> = 2" "live_count ?L \<lparr>X = 1, Y = 0\<rparr> = 1"
    "live_count ?L \<lparr>X = - 1, Y = 0\<rparr> = 1" "live_count ?L \<lparr>X = 1, Y = 1\<rparr> = 2"
    by (simp_all add: live_count_def spec_neighbours_def offsets_def shift_def)
  have next_gen: "set (LiveCells (AdvanceOne ?B)) = spec_birth ?L \<union> spec_survival ?L"
    and step: "unat (gen (AdvanceOne ?B)) = unat (gen ?B) + 1"
    using AdvanceOne_next_generation [OF r] by (simp_all add: cells g0)
  show ?thesis
    unfolding next_gen step g0
    by (simp add: r spec_birth_iff spec_survival_def count)
qed

text \<open>
  Claim C1, as it is worded, fails for the counter at its largest value: the engine
  state reached by \<open>AdvanceTo 4294967295\<close> on the empty engine has generation
  4294967295, and \<open>AdvanceOne\<close> takes its counter to 0.
\<close>

theorem AdvanceOne_counter_counterexample:
  "reachable (AdvanceTo 4294967295 (Life_new [])) \<and>
   unat (gen (AdvanceTo 4294967295 (Life_new []))) = 4294967295 \<and>
   unat (gen (AdvanceOne (AdvanceTo 4294967295 (Life_new [])))) = 0"
proof -
  have "reachable (AdvanceTo 4294967295 (Life_new []))"
    by (intro reachable.to reachable.new std_set_Nil)
  moreover have "gen (AdvanceTo 4294967295 (Life_new [])) = 4294967295"
    by (simp add: gen_AdvanceTo Life_new_def)
  ultimately show ?thesis
    by (simp add: gen_AdvanceOne)
qed

text \<open>
  Claim C2. For a cell \<open>c\<close> that is not alive, \<open>Birth\<close> puts \<open>c\<close> into the next
  generation, and \<open>c\<close> is alive after \<open>AdvanceOne\<close>, exactly when 3 of the neighbours
  of \<open>c\<close> are alive. The candidates
  \<open>AllDeadNeighbours\<close> are the dead cells next to a live cell, and a dead cell that is
  no candidate is not added.
\<close>

theorem Birth_rule:
  assumes "reachable g" and "c \<notin> set (LiveCells g)"
  shows "(c \<in> set (LiveCellsNextGen (Birth g)) \<longleftrightarrow>
            card (set (Neighbours c) \<inter> set (LiveCells g)) = 3) \<and>
         (c \<in> set (LiveCells (AdvanceOne g)) \<longleftrightarrow>
            card (set (Neighbours c) \<inter> set (LiveCells g)) = 3) \<and>
         (c \<in> set (AllDeadNeighbours g) \<longleftrightarrow> (\<exists>l\<in>set (LiveCells g). c \<in> set (Neighbours l))) \<and>
         (c \<notin> set (AllDeadNeighbours g) \<longrightarrow> c \<notin> set (LiveCellsNextGen (Birth g))) \<and>
         length (live_nbrs (LiveCells g) c) = card (set (Neighbours c) \<inter> set (LiveCells g))"
proof -
  from assms(1) have inv: "Life_inv g" by (rule reachable_inv)
  then have live: "std_set (LiveCells g)"
    by (simp add: Life_inv_def)
  have birth: "c \<in> set (LiveCellsNextGen (Birth g)) \<longleftrightarrow>
      card (set (Neighbours c) \<inter> set (LiveCells g)) = 3"
    using assms(2)
    by (simp add: set_Birth [OF inv] spec_birth_iff live_count_def set_Neighbours_spec)
  have adv: "c \<in> set (LiveCells (AdvanceOne g)) \<longleftrightarrow>
      card (set (Neighbours c) \<inter> set (LiveCells g)) = 3"
    using assms(2)
    by (simp add: set_AdvanceOne [OF inv] spec_birth_iff spec_survival_def live_count_def
        set_Neighbours_spec)
  have cand: "c \<in> set (AllDeadNeighbours g) \<longleftrightarrow> (\<exists>l\<in>set (LiveCells g). c \<in> set (Neighbours l))"
    using assms(2)
    by (simp add: set_candidates [OF live] spec_candidates_def set_Neighbours_spec)
  have none: "c \<notin> set (AllDeadNeighbours g) \<longrightarrow> c \<notin> set (LiveCellsNextGen (Birth g))"
    by (simp add: set_Birth [OF inv] spec_birth_def set_candidates [OF live])
  have count: "length (live_nbrs (LiveCells g) c) = card (set (Neighbours c) \<inter> set (LiveCells g))"
    by (simp add: length_live_nbrs [OF live] live_count_def set_Neighbours_spec)
  show ?thesis
    by (intro conjI birth adv cand none count)
qed

text \<open>Above the middle of the horizontal blinker, the dead cell \<open>(0, 1)\<close> is born.\<close>

theorem Birth_rule_witness:
  "reachable (Life_of_list [\<lparr>X = 0, Y = 0\<rparr>, \<lparr>X = 1, Y = 0\<rparr>, \<lparr>X = - 1, Y = 0\<rparr>]) \<and>
   \<lparr>X = 0, Y = 1\<rparr> \<notin> set (LiveCells (Life_of_list [\<lparr>X = 0, Y = 0\<rparr>, \<lparr>X = 1, Y = 0\<rparr>, \<lparr>X = - 1, Y = 0\<rparr>])) \<and>
   card (set (Neighbours \<lparr>X = 0, Y = 1\<rparr>) \<inter>
         set (LiveCells (Life_of_list [\<lparr>X = 0, Y = 0\<rparr>, \<lparr>X = 1, Y = 0\<rparr>, \<lparr>X = - 1, Y = 0\<rparr>]))) = 3 \<and>
   \<lparr>X = 0, Y = 1\<rparr> \<in> set (LiveCellsNextGen
        (Birth (Life_of_list [\<lparr>X = 0, Y = 0\<rparr>, \<lparr>X = 1, Y = 0\<rparr>, \<lparr>X = - 1, Y = 0\<rparr>])))"
proof -
  have r: "reachable (Life_of_list [\<lparr>X = 0, Y = 0\<rparr>, \<lparr>X = 1, Y = 0\<rparr>, \<lparr>X = - 1, Y = 0\<rparr>])"
    by (rule reachable_of_list)
  have d: "\<lparr>X = 0, Y = 1\<rparr> \<notin>
      set (LiveCells (Life_of_list [\<lparr>X = 0, Y = 0\<rparr>, \<lparr>X = 1, Y = 0\<rparr>, \<lparr>X = - 1, Y = 0\<rparr>]))"
    by (simp add: blinker_new)
  have three: "card (set (Neighbours \<lparr>X = 0, Y = 1\<rparr>) \<inter>
      set (LiveCells (Life_of_list [\<lparr>X = 0, Y = 0\<rparr>, \<lparr>X = 1, Y = 0\<rparr>, \<lparr>X = - 1, Y = 0\<rparr>]))) = 3"
    by (simp add: blinker_new set_Neighbours)
  from r d three Birth_rule [OF r d] show ?thesis
    by blast
qed

text \<open>
  Claim C3. A cell \<open>c\<close> of the live set is kept by \<open>SurvivalAndDeath\<close>, and is in the
  live set after \<open>AdvanceOne\<close>, exactly when the intersection of its neighbours with
  the live set has 2 or 3 elements.
\<close>

theorem Survival_rule:
  assumes "reachable g" and "c \<in> set (LiveCells g)"
  shows "(c \<in> set (LiveCellsNextGen (SurvivalAndDeath g)) \<longleftrightarrow>
            card (set (Neighbours c) \<inter> set (LiveCells g)) = 2 \<or>
            card (set (Neighbours c) \<inter> set (LiveCells g)) = 3) \<and>
         (c \<in> set (LiveCells (AdvanceOne g)) \<longleftrightarrow>
            card (set (Neighbours c) \<inter> set (LiveCells g)) = 2 \<or>
            card (set (Neighbours c) \<inter> set (LiveCells g)) = 3) \<and>
         length (live_nbrs (LiveCells g) c) = card (set (Neighbours c) \<inter> set (LiveCells g))"
proof -
  from assms(1) have inv: "Life_inv g" by (rule reachable_inv)
  then have live: "std_set (LiveCells g)" and empty: "LiveCellsNextGen g = []"
    by (simp_all add: Life_inv_def)
  have surv: "c \<in> set (LiveCellsNextGen (SurvivalAndDeath g)) \<longleftrightarrow>
            card (set (Neighbours c) \<inter> set (LiveCells g)) = 2 \<or>
            card (set (Neighbours c) \<inter> set (LiveCells g)) = 3"
    using assms(2)
    by (simp add: set_SurvivalAndDeath [OF live] empty spec_survival_def live_count_def
        set_Neighbours_spec)
  have adv: "c \<in> set (LiveCells (AdvanceOne g)) \<longleftrightarrow>
            card (set (Neighbours c) \<inter> set (LiveCells g)) = 2 \<or>
            card (set (Neighbours c) \<inter> set (LiveCells g)) = 3"
    using assms(2)
    by (simp add: set_AdvanceOne [OF inv] spec_birth_iff spec_survival_def live_count_def
        set_Neighbours_spec)
  have count: "length (live_nbrs (LiveCells g) c) = card (set (Neighbours c) \<inter> set (LiveCells g))"
    by (simp add: length_live_nbrs [OF live] live_count_def set_Neighbours_spec)
  show ?thesis
    by (intro conjI surv adv count)
qed

text \<open>The middle cell \<open>(0, 0)\<close> of the horizontal blinker is a live cell of its engine.\<close>

theorem Survival_rule_witness:
  "reachable (Life_of_list [\<lparr>X = 0, Y = 0\<rparr>, \<lparr>X = 1, Y = 0\<rparr>, \<lparr>X = - 1, Y = 0\<rparr>]) \<and>
   \<lparr>X = 0, Y = 0\<rparr> \<in> set (LiveCells (Life_of_list [\<lparr>X = 0, Y = 0\<rparr>, \<lparr>X = 1, Y = 0\<rparr>, \<lparr>X = - 1, Y = 0\<rparr>])) \<and>
   card (set (Neighbours \<lparr>X = 0, Y = 0\<rparr>) \<inter>
         set (LiveCells (Life_of_list [\<lparr>X = 0, Y = 0\<rparr>, \<lparr>X = 1, Y = 0\<rparr>, \<lparr>X = - 1, Y = 0\<rparr>]))) = 2 \<and>
   \<lparr>X = 0, Y = 0\<rparr> \<in> set (LiveCells
        (AdvanceOne (Life_of_list [\<lparr>X = 0, Y = 0\<rparr>, \<lparr>X = 1, Y = 0\<rparr>, \<lparr>X = - 1, Y = 0\<rparr>])))"
proof -
  have r: "reachable (Life_of_list [\<lparr>X = 0, Y = 0\<rparr>, \<lparr>X = 1, Y = 0\<rparr>, \<lparr>X = - 1, Y = 0\<rparr>])"
    by (rule reachable_of_list)
  have a: "\<lparr>X = 0, Y = 0\<rparr> \<in>
      set (LiveCells (Life_of_list [\<lparr>X = 0, Y = 0\<rparr>, \<lparr>X = 1, Y = 0\<rparr>, \<lparr>X = - 1, Y = 0\<rparr>]))"
    by (simp add: blinker_new)
  have two: "card (set (Neighbours \<lparr>X = 0, Y = 0\<rparr>) \<inter>
      set (LiveCells (Life_of_list [\<lparr>X = 0, Y = 0\<rparr>, \<lparr>X = 1, Y = 0\<rparr>, \<lparr>X = - 1, Y = 0\<rparr>]))) = 2"
    by (simp add: blinker_new set_Neighbours)
  from r a two Survival_rule [OF r a] show ?thesis
    by blast
qed

subsection \<open>Advancing to a generation\<close>

text \<open>
  Claim C5. \<open>AdvanceTo n\<close> is \<open>AdvanceOne\<close> repeated while \<open>gen < n\<close>, that is
  \<open>n - gen\<close> times when \<open>gen < n\<close> and not at all otherwise. Afterwards \<open>gen\<close> is the
  maximum of its old value and \<open>n\<close>; with \<open>n \<le> gen\<close> the state is unchanged, and a
  second \<open>AdvanceTo n\<close> changes nothing.
\<close>

theorem AdvanceTo_spec:
  "AdvanceTo n g = (if gen g < n then AdvanceTo n (AdvanceOne g) else g) \<and>
   AdvanceTo n g = (AdvanceOne ^^ (unat n - unat (gen g))) g \<and>
   gen (AdvanceTo n g) = max (gen g) n \<and>
   (n \<le> gen g \<longrightarrow> AdvanceTo n g = g) \<and>
   AdvanceTo n (AdvanceTo n g) = AdvanceTo n g"
proof -
  have loop: "AdvanceTo n g = (if gen g < n then AdvanceTo n (AdvanceOne g) else g)"
    by (rule AdvanceTo.simps)
  have noop: "n \<le> gen g \<longrightarrow> AdvanceTo n g = g"
    by (simp add: AdvanceTo_stop)
  have "\<not> gen (AdvanceTo n g) < n"
    unfolding gen_AdvanceTo by (auto simp: max_def)
  then have again: "AdvanceTo n (AdvanceTo n g) = AdvanceTo n g"
    by (rule AdvanceTo_stop)
  show ?thesis
    by (intro conjI loop AdvanceTo_funpow gen_AdvanceTo noop again)
qed

text \<open>An engine at generation 1 asked for generation 1, and for generation 0.\<close>

theorem AdvanceTo_spec_witness:
  "(1 :: 32 word) \<le> gen (AdvanceOne (Life_new [])) \<and>
   AdvanceTo 1 (AdvanceOne (Life_new [])) = AdvanceOne (Life_new []) \<and>
   AdvanceTo 0 (AdvanceOne (Life_new [])) = AdvanceOne (Life_new []) \<and>
   gen (AdvanceTo 7 (AdvanceOne (Life_new []))) = 7"
proof -
  have g: "gen (AdvanceOne (Life_new [])) = 1"
    by (simp add: gen_AdvanceOne Life_new_def)
  have seven: "gen (AdvanceTo 7 (AdvanceOne (Life_new []))) = max (gen (AdvanceOne (Life_new []))) 7"
    using AdvanceTo_spec [of 7 "AdvanceOne (Life_new [])"] by blast
  show ?thesis
    using AdvanceTo_spec [of 1 "AdvanceOne (Life_new [])"]
      AdvanceTo_spec [of 0 "AdvanceOne (Life_new [])"] seven
    by (simp add: g)
qed

subsection \<open>The empty engine\<close>

lemma AdvanceOne_empty:
  "AdvanceOne \<lparr>LiveCells = [], gen = k, LiveCellsNextGen = []\<rparr> =
     \<lparr>LiveCells = [], gen = k + 1, LiveCellsNextGen = []\<rparr>"
  by (simp add: AdvanceOne_def Birth_def SurvivalAndDeath_def AllDeadNeighbours_def Let_def)

lemma funpow_AdvanceOne_empty:
  "(AdvanceOne ^^ k) (Life_new []) = \<lparr>LiveCells = [], gen = of_nat k, LiveCellsNextGen = []\<rparr>"
  by (induction k) (simp_all add: Life_new_def AdvanceOne_empty)

text \<open>
  Claim C7, as the code has it. An engine built from the empty set has the empty live
  set after any number \<open>k\<close> of \<open>AdvanceOne\<close> calls, and \<open>cardLiveCells\<close> returns 0. The
  generation counter is \<open>k\<close> reduced modulo \<open>2^32\<close>, which is \<open>k\<close> for every \<open>k\<close> below
  \<open>2^32\<close>; after one call the set is empty and the generation is 1.
\<close>

theorem empty_stays_empty:
  "LiveCells ((AdvanceOne ^^ k) (Life_new [])) = [] \<and>
   cardLiveCells ((AdvanceOne ^^ k) (Life_new [])) = 0 \<and>
   unat (Gen ((AdvanceOne ^^ k) (Life_new []))) = k mod 2 ^ 32 \<and>
   (k < 2 ^ 32 \<longrightarrow> unat (Gen ((AdvanceOne ^^ k) (Life_new []))) = k) \<and>
   LiveCells (AdvanceOne (Life_new [])) = [] \<and>
   Gen (AdvanceOne (Life_new [])) = 1"
proof -
  have one: "AdvanceOne (Life_new []) = \<lparr>LiveCells = [], gen = 1, LiveCellsNextGen = []\<rparr>"
    by (simp add: Life_new_def AdvanceOne_empty)
  have "unat (of_nat k :: 32 word) = k mod 2 ^ 32"
    by (simp add: unat_of_nat)
  then show ?thesis
    by (simp add: funpow_AdvanceOne_empty one Gen_def cardLiveCells_def)
qed

text \<open>Three calls on the empty engine.\<close>

theorem empty_stays_empty_witness:
  "(3 :: nat) < 2 ^ 32 \<and>
   unat (Gen ((AdvanceOne ^^ 3) (Life_new []))) = 3 \<and>
   LiveCells ((AdvanceOne ^^ 3) (Life_new [])) = []"
  using empty_stays_empty [of 3] by simp

text \<open>
  Claim C7, as it is worded, fails once the counter has wrapped: after \<open>2^32\<close> calls
  on the empty engine the generation counter is 0.
\<close>

theorem generation_wraps_counterexample:
  "Gen ((AdvanceOne ^^ 4294967296) (Life_new [])) = 0 \<and>
   unat (Gen ((AdvanceOne ^^ 4294967296) (Life_new []))) \<noteq> 4294967296"
proof -
  have "(of_nat 4294967296 :: 32 word) = 0"
    by simp
  then show ?thesis
    unfolding funpow_AdvanceOne_empty Gen_def by simp
qed

subsection \<open>Uniqueness in the live set\<close>

lemma Life_of_list_cells: "LiveCells (Life_of_list cs) = insert_range cs []"
  by (simp add: Life_of_list_def Life_new_def)

text \<open>
  Claim C9. The live set never holds a coordinate twice. An engine built from a list
  of coordinates with repetitions holds every coordinate of the list once, with
  generation 0, and there is no error result; in every engine state, and after
  \<open>AdvanceOne\<close> and \<open>AdvanceTo\<close> from it, the live set is free of repetitions.
\<close>

theorem LiveCells_unique:
  "distinct (LiveCells (Life_of_list cs)) \<and>
   set (LiveCells (Life_of_list cs)) = set cs \<and>
   length (LiveCells (Life_of_list cs)) = card (set cs) \<and>
   gen (Life_of_list cs) = 0 \<and>
   reachable (Life_of_list cs) \<and>
   (reachable g \<longrightarrow>
      distinct (LiveCells g) \<and> distinct (LiveCells (AdvanceOne g)) \<and>
      distinct (LiveCells (AdvanceTo n g)))"
proof -
  have s: "std_set (LiveCells (Life_of_list cs))"
    unfolding Life_of_list_cells by (intro std_set_insert_range std_set_Nil)
  have d: "distinct (LiveCells h)" if "reachable h" for h
    using reachable_inv [OF that] by (simp add: Life_inv_def std_set_distinct)
  have adv: "reachable g \<longrightarrow>
      distinct (LiveCells g) \<and> distinct (LiveCells (AdvanceOne g)) \<and>
      distinct (LiveCells (AdvanceTo n g))"
    by (blast intro: d reachable.one reachable.to)
  have len: "length (LiveCells (Life_of_list cs)) = card (set cs)"
    using std_set_length [OF s] by (simp add: Life_of_list_cells set_insert_range)
  have gen0: "gen (Life_of_list cs) = 0"
    by (simp add: Life_of_list_def Life_new_def)
  have set_eq: "set (LiveCells (Life_of_list cs)) = set cs"
    by (simp add: Life_of_list_cells set_insert_range)
  show ?thesis
    by (intro conjI std_set_distinct [OF s] set_eq len gen0 reachable_of_list adv)
qed

text \<open>The list \<open>(1,1), (0,0), (1,1), (0,0)\<close> gives the live set \<open>(0,0), (1,1)\<close>.\<close>

theorem LiveCells_unique_witness:
  "reachable (Life_of_list [\<lparr>X = 1, Y = 1\<rparr>, \<lparr>X = 0, Y = 0\<rparr>, \<lparr>X = 1, Y = 1\<rparr>, \<lparr>X = 0, Y = 0\<rparr>]) \<and>
   LiveCells (Life_of_list [\<lparr>X = 1, Y = 1\<rparr>, \<lparr>X = 0, Y = 0\<rparr>, \<lparr>X = 1, Y = 1\<rparr>, \<lparr>X = 0, Y = 0\<rparr>]) =
     [\<lparr>X = 0, Y = 0\<rparr>, \<lparr>X = 1, Y = 1\<rparr>] \<and>
   distinct (LiveCells (AdvanceOne
     (Life_of_list [\<lparr>X = 1, Y = 1\<rparr>, \<lparr>X = 0, Y = 0\<rparr>, \<lparr>X = 1, Y = 1\<rparr>, \<lparr>X = 0, Y = 0\<rparr>])))"
proof -
  have cells:
    "LiveCells (Life_of_list [\<lparr>X = 1, Y = 1\<rparr>, \<lparr>X = 0, Y = 0\<rparr>, \<lparr>X = 1, Y = 1\<rparr>, \<lparr>X = 0, Y = 0\<rparr>]) =
       [\<lparr>X = 0, Y = 0\<rparr>, \<lparr>X = 1, Y = 1\<rparr>]"
    by (simp add: Life_of_list_cells coord_less_def)
  from cells
    LiveCells_unique [of "[\<lparr>X = 1, Y = 1\<rparr>, \<lparr>X = 0, Y = 0\<rparr>, \<lparr>X = 1, Y = 1\<rparr>, \<lparr>X = 0, Y = 0\<rparr>]"
      "Life_of_list [\<lparr>X = 1, Y = 1\<rparr>, \<lparr>X = 0, Y = 0\<rparr>, \<lparr>X = 1, Y = 1\<rparr>, \<lparr>X = 0, Y = 0\<rparr>]"]
  show ?thesis by blast
qed

subsection \<open>The scratch set\<close>

lemma LiveCells_AdvanceOne_cells:
  "LiveCellsNextGen g = [] \<Longrightarrow>
     LiveCells (AdvanceOne g) = LiveCells (AdvanceOne (Life_new (LiveCells g)))"
  by (simp add: AdvanceOne_def Birth_def SurvivalAndDeath_def AllDeadNeighbours_def Let_def
      Life_new_def)

text \<open>
  Claim C10. \<open>LiveCellsNextGen\<close> is empty after the constructor, after every
  \<open>AdvanceOne\<close>, which copies it into \<open>LiveCells\<close> and then clears it, and after every
  \<open>AdvanceTo\<close>; so it is empty in every engine state. The live set after a further
  \<open>AdvanceOne\<close> is the one a fresh engine computes from the current live set.
\<close>

theorem LiveCellsNextGen_empty:
  "LiveCellsNextGen (Life_new cells) = [] \<and>
   LiveCellsNextGen (AdvanceOne g) = [] \<and>
   LiveCells (AdvanceOne g) = LiveCellsNextGen (SurvivalAndDeath (Birth g)) \<and>
   (reachable g \<longrightarrow>
      LiveCellsNextGen g = [] \<and> LiveCellsNextGen (AdvanceTo n g) = [] \<and>
      LiveCells (AdvanceOne g) = LiveCells (AdvanceOne (Life_new (LiveCells g)))) \<and>
   LiveCells (AdvanceOne (AdvanceOne g)) =
     LiveCells (AdvanceOne (Life_new (LiveCells (AdvanceOne g))))"
proof -
  have new: "LiveCellsNextGen (Life_new cells) = []"
    by (simp add: Life_new_def)
  have e: "LiveCellsNextGen h = []" if "reachable h" for h
    using reachable_inv [OF that] by (simp add: Life_inv_def)
  have r: "reachable g \<longrightarrow>
      LiveCellsNextGen g = [] \<and> LiveCellsNextGen (AdvanceTo n g) = [] \<and>
      LiveCells (AdvanceOne g) = LiveCells (AdvanceOne (Life_new (LiveCells g)))"
    by (blast intro: e reachable.to LiveCells_AdvanceOne_cells)
  have twice: "LiveCells (AdvanceOne (AdvanceOne g)) =
     LiveCells (AdvanceOne (Life_new (LiveCells (AdvanceOne g))))"
    by (rule LiveCells_AdvanceOne_cells) (rule LiveCellsNextGen_AdvanceOne)
  show ?thesis
    by (intro conjI new LiveCellsNextGen_AdvanceOne LiveCells_AdvanceOne r twice)
qed

text \<open>The scratch set of the engine built from the horizontal blinker.\<close>

theorem LiveCellsNextGen_empty_witness:
  "reachable (Life_of_list [\<lparr>X = 0, Y = 0\<rparr>, \<lparr>X = 1, Y = 0\<rparr>, \<lparr>X = - 1, Y = 0\<rparr>]) \<and>
   LiveCellsNextGen (Life_of_list [\<lparr>X = 0, Y = 0\<rparr>, \<lparr>X = 1, Y = 0\<rparr>, \<lparr>X = - 1, Y = 0\<rparr>]) = [] \<and>
   LiveCellsNextGen
     (AdvanceTo 5 (Life_of_list [\<lparr>X = 0, Y = 0\<rparr>, \<lparr>X = 1, Y = 0\<rparr>, \<lparr>X = - 1, Y = 0\<rparr>])) = []"
proof -
  have r: "reachable (Life_of_list [\<lparr>X = 0, Y = 0\<rparr>, \<lparr>X = 1, Y = 0\<rparr>, \<lparr>X = - 1, Y = 0\<rparr>])"
    by (rule reachable_of_list)
  from r LiveCellsNextGen_empty [of "[]"
      "Life_of_list [\<lparr>X = 0, Y = 0\<rparr>, \<lparr>X = 1, Y = 0\<rparr>, \<lparr>X = - 1, Y = 0\<rparr>]" 5]
  show ?thesis by blast
qed

end
